theory Spec2Isabelle
  imports Main "HOL-Library.Word"
begin

section \<open>The platform: Go's standard library as seen by package fnspath\<close>

text \<open>
  Package fnspath (fns.go, md5.go) is a thin layer over Go's \<^verbatim>\<open>os\<close>, \<^verbatim>\<open>io\<close>,
  \<^verbatim>\<open>io/ioutil\<close>, \<^verbatim>\<open>path/filepath\<close>, \<^verbatim>\<open>crypto/md5\<close> and \<^verbatim>\<open>time\<close> packages.
  None of these is code of the package, so every library call is a field of a
  \<open>platform\<close> record: a function from the state of the outside world \<open>'w\<close> to a result
  and a new world. Nothing is assumed about what the calls answer; the theorems below
  hold for every platform.
\<close>

type_synonym path = string
type_synonym byte = "8 word"
type_synonym FileMode = "32 word"
type_synonym fd = nat

text \<open>\<^verbatim>\<open>syscall.Errno\<close> values that the package or the demonstration platform names.\<close>

datatype errno = ENOENT | ENOTDIR | EEXIST | EACCES | EBUSY | EIO

text \<open>
  Go \<^verbatim>\<open>error\<close> values. \<open>PathError op path err\<close> is \<^verbatim>\<open>&os.PathError{op, path, err}\<close>,
  \<open>LinkError\<close> is \<^verbatim>\<open>&os.LinkError{...}\<close>, \<open>ErrInvalid\<close> is \<^verbatim>\<open>os.ErrInvalid\<close>.
  A Go \<^verbatim>\<open>error\<close> that may be \<^verbatim>\<open>nil\<close> is an \<open>error option\<close>, \<open>None\<close> being \<^verbatim>\<open>nil\<close>.
\<close>

datatype error =
    PathError string path errno
  | LinkError string path path errno
  | ErrInvalid

text \<open>\<^verbatim>\<open>os.IsNotExist(err)\<close>: false on \<^verbatim>\<open>nil\<close>, true on an error that wraps ENOENT.\<close>

fun IsNotExist :: "error option \<Rightarrow> bool" where
  "IsNotExist None = False"
| "IsNotExist (Some (PathError _ _ en)) = (en = ENOENT)"
| "IsNotExist (Some (LinkError _ _ _ en)) = (en = ENOENT)"
| "IsNotExist (Some ErrInvalid) = False"

text \<open>
  \<^verbatim>\<open>os.FileInfo\<close> is an interface; the package calls \<^verbatim>\<open>Name()\<close>, \<^verbatim>\<open>Size()\<close>,
  \<^verbatim>\<open>Mode()\<close> and \<^verbatim>\<open>IsDir()\<close>. \<open>Size\<close> holds the bits of the \<^verbatim>\<open>int64\<close>.
\<close>

record FileInfo =
  Name :: string
  Size :: "64 word"
  Mode :: FileMode
  IsDir :: bool

record 'w platform =
  sys_Stat :: "path \<Rightarrow> 'w \<Rightarrow> (error + FileInfo) \<times> 'w"
  sys_Lstat :: "path \<Rightarrow> 'w \<Rightarrow> (error + FileInfo) \<times> 'w"
  sys_Mkdir :: "path \<Rightarrow> FileMode \<Rightarrow> 'w \<Rightarrow> error option \<times> 'w"
  sys_MkdirAll :: "path \<Rightarrow> FileMode \<Rightarrow> 'w \<Rightarrow> error option \<times> 'w"
  sys_Chmod :: "path \<Rightarrow> FileMode \<Rightarrow> 'w \<Rightarrow> error option \<times> 'w"
  sys_RemoveAll :: "path \<Rightarrow> 'w \<Rightarrow> error option \<times> 'w"
  sys_Rename :: "path \<Rightarrow> path \<Rightarrow> 'w \<Rightarrow> error option \<times> 'w"
  sys_Open :: "path \<Rightarrow> 'w \<Rightarrow> (error + fd) \<times> 'w"
  sys_Create :: "path \<Rightarrow> 'w \<Rightarrow> (error + fd) \<times> 'w"
  sys_Close :: "fd \<Rightarrow> 'w \<Rightarrow> error option \<times> 'w"
  sys_Copy :: "fd \<Rightarrow> fd \<Rightarrow> 'w \<Rightarrow> (error + 64 word) \<times> 'w"
  sys_Readdir :: "fd \<Rightarrow> int \<Rightarrow> 'w \<Rightarrow> (FileInfo list \<times> error option) \<times> 'w"
  sys_ReadFile :: "path \<Rightarrow> 'w \<Rightarrow> (error + byte list) \<times> 'w"
  sys_Now :: "'w \<Rightarrow> int \<times> 'w"
  sys_NewBuf :: "'w \<Rightarrow> byte list \<times> 'w"
  filepath_Dir :: "path \<Rightarrow> path"
  md5_Sum :: "byte list \<Rightarrow> byte list"

subsection \<open>The log of library calls\<close>

text \<open>
  Claims such as "at most 20 attempts" or "the remaining pairs are not attempted" are
  about which library calls a function makes. The state threaded through the model is
  therefore the world together with a log: every library call appends one event, the
  call and the error it returned (\<open>None\<close> when it succeeded). The log is never read by
  the modelled functions.
\<close>

datatype call =
    CStat path
  | CLstat path
  | CMkdir path FileMode
  | CMkdirAll path FileMode
  | CChmod path FileMode
  | CRemoveAll path
  | CRename path path
  | COpen path
  | CCreate path
  | CClose fd
  | CCopy fd fd
  | CReaddir fd
  | CReadFile path
  | CPrintln error

type_synonym event = "call \<times> error option"

record 'w state =
  world :: 'w
  trace :: "event list"

definition invoke ::
  "call \<Rightarrow> ('w \<Rightarrow> 'r \<times> 'w) \<Rightarrow> ('r \<Rightarrow> error option) \<Rightarrow> 'w state \<Rightarrow> 'r \<times> 'w state" where
  "invoke c f out s =
     (case f (world s) of
        (r, w) \<Rightarrow> (r, \<lparr>world = w, trace = trace s @ [(c, out r)]\<rparr>))"

fun errof :: "error + 'a \<Rightarrow> error option" where
  "errof (Inl e) = Some e"
| "errof (Inr _) = None"

definition os_Stat :: "'w platform \<Rightarrow> path \<Rightarrow> 'w state \<Rightarrow> (error + FileInfo) \<times> 'w state" where
  "os_Stat pf p = invoke (CStat p) (sys_Stat pf p) errof"

definition os_Lstat :: "'w platform \<Rightarrow> path \<Rightarrow> 'w state \<Rightarrow> (error + FileInfo) \<times> 'w state" where
  "os_Lstat pf p = invoke (CLstat p) (sys_Lstat pf p) errof"

definition os_Mkdir :: "'w platform \<Rightarrow> path \<Rightarrow> FileMode \<Rightarrow> 'w state \<Rightarrow> error option \<times> 'w state" where
  "os_Mkdir pf p m = invoke (CMkdir p m) (sys_Mkdir pf p m) id"

definition os_MkdirAll :: "'w platform \<Rightarrow> path \<Rightarrow> FileMode \<Rightarrow> 'w state \<Rightarrow> error option \<times> 'w state" where
  "os_MkdirAll pf p m = invoke (CMkdirAll p m) (sys_MkdirAll pf p m) id"

definition os_Chmod :: "'w platform \<Rightarrow> path \<Rightarrow> FileMode \<Rightarrow> 'w state \<Rightarrow> error option \<times> 'w state" where
  "os_Chmod pf p m = invoke (CChmod p m) (sys_Chmod pf p m) id"

definition os_RemoveAll :: "'w platform \<Rightarrow> path \<Rightarrow> 'w state \<Rightarrow> error option \<times> 'w state" where
  "os_RemoveAll pf p = invoke (CRemoveAll p) (sys_RemoveAll pf p) id"

definition os_Rename :: "'w platform \<Rightarrow> path \<Rightarrow> path \<Rightarrow> 'w state \<Rightarrow> error option \<times> 'w state" where
  "os_Rename pf a b = invoke (CRename a b) (sys_Rename pf a b) id"

definition os_Open :: "'w platform \<Rightarrow> path \<Rightarrow> 'w state \<Rightarrow> (error + fd) \<times> 'w state" where
  "os_Open pf p = invoke (COpen p) (sys_Open pf p) errof"

definition os_Create :: "'w platform \<Rightarrow> path \<Rightarrow> 'w state \<Rightarrow> (error + fd) \<times> 'w state" where
  "os_Create pf p = invoke (CCreate p) (sys_Create pf p) errof"

text \<open>\<^verbatim>\<open>defer f.Close()\<close>: the error of Close is dropped by the package.\<close>

definition file_Close :: "'w platform \<Rightarrow> fd \<Rightarrow> 'w state \<Rightarrow> 'w state" where
  "file_Close pf f s = snd (invoke (CClose f) (sys_Close pf f) id s)"

definition io_Copy :: "'w platform \<Rightarrow> fd \<Rightarrow> fd \<Rightarrow> 'w state \<Rightarrow> (error + 64 word) \<times> 'w state" where
  "io_Copy pf dst src = invoke (CCopy dst src) (sys_Copy pf dst src) errof"

text \<open>
  \<^verbatim>\<open>(*os.File).Readdir(n)\<close>. The receiver may be \<^verbatim>\<open>nil\<close> (\<open>None\<close>): the library then
  returns \<^verbatim>\<open>(nil, os.ErrInvalid)\<close> without touching the file system.
\<close>

fun file_Readdir ::
  "'w platform \<Rightarrow> fd option \<Rightarrow> int \<Rightarrow> 'w state \<Rightarrow> (FileInfo list \<times> error option) \<times> 'w state" where
  "file_Readdir pf None n s = (([], Some ErrInvalid), s)"
| "file_Readdir pf (Some f) n s = invoke (CReaddir f) (sys_Readdir pf f n) snd s"

definition ioutil_ReadFile :: "'w platform \<Rightarrow> path \<Rightarrow> 'w state \<Rightarrow> (error + byte list) \<times> 'w state" where
  "ioutil_ReadFile pf p = invoke (CReadFile p) (sys_ReadFile pf p) errof"

text \<open>\<^verbatim>\<open>fmt.Println(err)\<close>: the report of a failure is an event of the log.\<close>

definition fmt_Println :: "error \<Rightarrow> 'w state \<Rightarrow> 'w state" where
  "fmt_Println e s = s\<lparr>trace := trace s @ [(CPrintln e, None)]\<rparr>"

text \<open>\<^verbatim>\<open>time.Now()\<close> and \<^verbatim>\<open>bufpool.NewBuf()\<close> read the world and are not logged.\<close>

definition time_Now :: "'w platform \<Rightarrow> 'w state \<Rightarrow> int \<times> 'w state" where
  "time_Now pf s = (case sys_Now pf (world s) of (t, w) \<Rightarrow> (t, s\<lparr>world := w\<rparr>))"

definition bufpool_NewBuf :: "'w platform \<Rightarrow> 'w state \<Rightarrow> byte list \<times> 'w state" where
  "bufpool_NewBuf pf s = (case sys_NewBuf pf (world s) of (b, w) \<Rightarrow> (b, s\<lparr>world := w\<rparr>))"

section \<open>fns.go\<close>

definition RemoveAttempts :: int where
  "RemoveAttempts = 20"

definition MvAttempts :: int where
  "MvAttempts = 20"

text \<open>\<^verbatim>\<open>IsExists\<close> (fns.go 17-26).\<close>

definition IsExists :: "'w platform \<Rightarrow> path \<Rightarrow> 'w state \<Rightarrow> (bool \<times> error option) \<times> 'w state" where
  "IsExists pf p s =
     (case os_Stat pf p s of
        (Inl e, s1) \<Rightarrow> (if IsNotExist (Some e) then ((False, None), s1) else ((True, Some e), s1))
      | (Inr _, s1) \<Rightarrow> ((True, None), s1))"

text \<open>\<^verbatim>\<open>os.IsPathSeparator\<close> on Unix, and the two backward scans of \<^verbatim>\<open>MkdirAll\<close>
  (fns.go 40-48): \<open>skip_trailing path i\<close> is the loop \<^verbatim>\<open>for i > 0 && IsPathSeparator(path[i-1]) { i-- }\<close>,
  \<open>scan_element path j\<close> the loop \<^verbatim>\<open>for j > 0 && !IsPathSeparator(path[j-1]) { j-- }\<close>.\<close>

definition IsPathSeparator :: "char \<Rightarrow> bool" where
  "IsPathSeparator c = (c = CHR ''/'')"

fun skip_trailing :: "path \<Rightarrow> nat \<Rightarrow> nat" where
  "skip_trailing p 0 = 0"
| "skip_trailing p (Suc i) = (if IsPathSeparator (p ! i) then skip_trailing p i else Suc i)"

fun scan_element :: "path \<Rightarrow> nat \<Rightarrow> nat" where
  "scan_element p 0 = 0"
| "scan_element p (Suc j) = (if \<not> IsPathSeparator (p ! j) then scan_element p j else Suc j)"

lemma skip_trailing_le: "skip_trailing p i \<le> i"
  by (induction i) auto

lemma scan_element_le: "scan_element p j \<le> j"
  by (induction j) auto

text \<open>\<^verbatim>\<open>MkdirAll\<close>, fns.go 58-76: the parent exists; \<^verbatim>\<open>Mkdir\<close>, the \<^verbatim>\<open>Lstat\<close>
  double check when it fails, \<^verbatim>\<open>Chmod\<close> when it succeeds.\<close>

definition MkdirAll_create :: "'w platform \<Rightarrow> path \<Rightarrow> FileMode \<Rightarrow> 'w state \<Rightarrow> error option \<times> 'w state" where
  "MkdirAll_create pf p perm s =
     (case os_Mkdir pf p perm s of
        (Some err, s1) \<Rightarrow>
          (case os_Lstat pf p s1 of
             (Inr dir, s2) \<Rightarrow> (if IsDir dir then (None, s2) else (Some err, s2))
           | (Inl _, s2) \<Rightarrow> (Some err, s2))
      | (None, s1) \<Rightarrow> os_Chmod pf p perm s1)"

text \<open>\<^verbatim>\<open>MkdirAll\<close> (fns.go 28-77). It recurses on \<^verbatim>\<open>path[0:j-1]\<close>, which is shorter
  than \<^verbatim>\<open>path\<close>.\<close>

function MkdirAll :: "'w platform \<Rightarrow> path \<Rightarrow> FileMode \<Rightarrow> 'w state \<Rightarrow> error option \<times> 'w state" where
  "MkdirAll pf p perm s =
     (case os_Stat pf p s of
        (Inr dir, s1) \<Rightarrow>
          (if IsDir dir then (None, s1) else (Some (PathError ''mkdir'' p ENOTDIR), s1))
      | (Inl _, s1) \<Rightarrow>
          (if scan_element p (skip_trailing p (length p)) > 1
           then (case MkdirAll pf (take (scan_element p (skip_trailing p (length p)) - 1) p) perm s1 of
                   (Some err, s2) \<Rightarrow> (Some err, s2)
                 | (None, s2) \<Rightarrow> MkdirAll_create pf p perm s2)
           else MkdirAll_create pf p perm s1))"
  by pat_completeness auto
termination
proof (relation "measure (\<lambda>(pf, p, perm, s). length p)")
  show "wf (measure (\<lambda>(pf, p, perm, s). length p))" by simp
next
  fix pf :: "'w platform" and p :: path and perm :: FileMode and s y :: "'w state"
  assume "1 < scan_element p (skip_trailing p (length p))"
  moreover have "scan_element p (skip_trailing p (length p)) \<le> length p"
    using scan_element_le [of p "skip_trailing p (length p)"] skip_trailing_le [of p "length p"]
    by linarith
  ultimately show "((pf, take (scan_element p (skip_trailing p (length p)) - 1) p, perm, y),
                    (pf, p, perm, s)) \<in> measure (\<lambda>(pf, p, perm, s). length p)"
    by simp
qed

declare MkdirAll.simps [simp del]

text \<open>\<^verbatim>\<open>Ensure\<close> (fns.go 79-89).\<close>

definition Ensure :: "'w platform \<Rightarrow> path \<Rightarrow> FileMode \<Rightarrow> 'w state \<Rightarrow> error option \<times> 'w state" where
  "Ensure pf p perm s =
     (case IsExists pf p s of
        ((ok, Some e), s1) \<Rightarrow> (Some e, s1)
      | ((ok, None), s1) \<Rightarrow>
          (if \<not> ok then (case MkdirAll pf p perm s1 of
                            (Some e, s2) \<Rightarrow> (Some e, s2)
                          | (None, s2) \<Rightarrow> (None, s2))
           else (None, s1)))"

text \<open>\<^verbatim>\<open>Remove\<close> (fns.go 91-105). \<open>Remove_loop\<close> is the \<^verbatim>\<open>for attempt > 0\<close> loop, with the
  loop variables \<^verbatim>\<open>attempt\<close> and \<^verbatim>\<open>e\<close> as arguments.\<close>

function Remove_loop :: "'w platform \<Rightarrow> path \<Rightarrow> int \<Rightarrow> error option \<Rightarrow> 'w state \<Rightarrow> error option \<times> 'w state" where
  "Remove_loop pf p attempt e s =
     (if attempt > 0
      then (case os_RemoveAll pf p s of
              (Some e1, s1) \<Rightarrow> Remove_loop pf p (attempt - 1) (Some e1) s1
            | (None, s1) \<Rightarrow> (None, s1))
      else (e, s))"
  by pat_completeness auto
termination
  by (relation "measure (\<lambda>(pf, p, attempt, e, s). nat attempt)") auto

declare Remove_loop.simps [simp del]

definition Remove :: "'w platform \<Rightarrow> path \<Rightarrow> 'w state \<Rightarrow> error option \<times> 'w state" where
  "Remove pf p s = Remove_loop pf p RemoveAttempts None s"

text \<open>\<^verbatim>\<open>MV\<close> (fns.go 107-121).\<close>

function MV_loop :: "'w platform \<Rightarrow> path \<Rightarrow> path \<Rightarrow> int \<Rightarrow> error option \<Rightarrow> 'w state \<Rightarrow> error option \<times> 'w state" where
  "MV_loop pf oldpath newpath attempt e s =
     (if attempt > 0
      then (case os_Rename pf oldpath newpath s of
              (Some e1, s1) \<Rightarrow> MV_loop pf oldpath newpath (attempt - 1) (Some e1) s1
            | (None, s1) \<Rightarrow> (None, s1))
      else (e, s))"
  by pat_completeness auto
termination
  by (relation "measure (\<lambda>(pf, oldpath, newpath, attempt, e, s). nat attempt)") auto

declare MV_loop.simps [simp del]

definition MV :: "'w platform \<Rightarrow> path \<Rightarrow> path \<Rightarrow> 'w state \<Rightarrow> error option \<times> 'w state" where
  "MV pf oldpath newpath s = MV_loop pf oldpath newpath MvAttempts None s"

text \<open>\<^verbatim>\<open>pathAndMode\<close> (fns.go 154-157); the fields \<^verbatim>\<open>p\<close> and \<^verbatim>\<open>mode\<close> carry a prefix
  here, since a record field is a constant of the theory.\<close>

record pathAndMode =
  pam_p :: path
  pam_mode :: FileMode

text \<open>\<^verbatim>\<open>EnsureMany\<close> (fns.go 167-179).\<close>

fun EnsureMany :: "'w platform \<Rightarrow> pathAndMode list \<Rightarrow> 'w state \<Rightarrow> error option \<times> 'w state" where
  "EnsureMany pf [] s = (None, s)"
| "EnsureMany pf (r # paths) s =
     (case os_Stat pf (pam_p r) s of
        (st, s1) \<Rightarrow>
          (if IsNotExist (errof st)
           then (case os_MkdirAll pf (pam_p r) (pam_mode r) s1 of
                   (Some e, s2) \<Rightarrow> (Some e, s2)
                 | (None, s2) \<Rightarrow> EnsureMany pf paths s2)
           else (case errof st of
                   Some e \<Rightarrow> (Some e, s1)
                 | None \<Rightarrow> EnsureMany pf paths s1)))"

text \<open>\<^verbatim>\<open>AbsentMany\<close> (fns.go 181-189); \<open>err\<close> is the named result.\<close>

fun AbsentMany_loop :: "'w platform \<Rightarrow> path list \<Rightarrow> error option \<Rightarrow> 'w state \<Rightarrow> error option \<times> 'w state" where
  "AbsentMany_loop pf [] err s = (err, s)"
| "AbsentMany_loop pf (p # paths) err s =
     (case Remove pf p s of
        (Some e, s1) \<Rightarrow> AbsentMany_loop pf paths (Some e) s1
      | (None, s1) \<Rightarrow> AbsentMany_loop pf paths err s1)"

definition AbsentMany :: "'w platform \<Rightarrow> path list \<Rightarrow> 'w state \<Rightarrow> error option \<times> 'w state" where
  "AbsentMany pf paths s = AbsentMany_loop pf paths None s"

text \<open>\<^verbatim>\<open>Rename\<close> (fns.go 249-255).\<close>

definition Rename :: "'w platform \<Rightarrow> path \<Rightarrow> path \<Rightarrow> FileMode \<Rightarrow> 'w state \<Rightarrow> error option \<times> 'w state" where
  "Rename pf oldpath newpath perm s =
     (case Ensure pf (filepath_Dir pf newpath) perm s of
        (Some e, s1) \<Rightarrow> (None, s1)
      | (None, s1) \<Rightarrow> os_Rename pf oldpath newpath s1)"

text \<open>\<^verbatim>\<open>CopyFile\<close> (fns.go 257-289). \<open>CopyFile_chmod\<close> is the body of
  \<^verbatim>\<open>if _, err := io.Copy(destfile, sourcefile); err == nil { ... }\<close> (lines 273-285); the
  deferred \<^verbatim>\<open>Close\<close> calls run last, the destination's first.\<close>

definition CopyFile_chmod :: "'w platform \<Rightarrow> path \<Rightarrow> path \<Rightarrow> FileMode \<Rightarrow> 'w state \<Rightarrow> error option \<times> 'w state" where
  "CopyFile_chmod pf source dest perm s =
     (if perm \<noteq> 0
      then (case os_Chmod pf dest perm s of
              (Some err, s1) \<Rightarrow> (Some err, s1)
            | (None, s1) \<Rightarrow> (None, s1))
      else (case os_Stat pf source s of
              (Inl err, s1) \<Rightarrow> (Some err, s1)
            | (Inr sourceinfo, s1) \<Rightarrow>
                (case os_Chmod pf dest (Mode sourceinfo) s1 of
                   (Some err, s2) \<Rightarrow> (Some err, s2)
                 | (None, s2) \<Rightarrow> (None, s2))))"

definition CopyFile :: "'w platform \<Rightarrow> path \<Rightarrow> path \<Rightarrow> FileMode \<Rightarrow> 'w state \<Rightarrow> error option \<times> 'w state" where
  "CopyFile pf source dest perm s =
     (case os_Open pf source s of
        (Inl err, s1) \<Rightarrow> (Some err, s1)
      | (Inr sourcefile, s1) \<Rightarrow>
          (case os_Create pf dest s1 of
             (Inl err, s2) \<Rightarrow> (Some err, file_Close pf sourcefile s2)
           | (Inr destfile, s2) \<Rightarrow>
               (case io_Copy pf destfile sourcefile s2 of
                  (Inr _, s3) \<Rightarrow>
                    (case CopyFile_chmod pf source dest perm s3 of
                       (r, s4) \<Rightarrow> (r, file_Close pf sourcefile (file_Close pf destfile s4)))
                | (Inl _, s3) \<Rightarrow>
                    (None, file_Close pf sourcefile (file_Close pf destfile s3)))))"

text \<open>\<^verbatim>\<open>PathCopyDir\<close> (fns.go 291-330). The recursion follows the directory tree that the
  platform reports, which need not be finite, so the model takes fuel: the depth of
  recursive calls it may make. \<open>None\<close> is "out of fuel". \<open>PathCopyDir_loop\<close> is the
  \<^verbatim>\<open>for _, obj := range objects\<close> loop, \<open>err\<close> the named result. The result of
  \<^verbatim>\<open>os.Open\<close> is used without looking at its error, so \<^verbatim>\<open>directory\<close> may be \<^verbatim>\<open>nil\<close>.\<close>

fun handle_of :: "error + fd \<Rightarrow> fd option" where
  "handle_of (Inl _) = None"
| "handle_of (Inr f) = Some f"

fun report :: "error option \<Rightarrow> 'w state \<Rightarrow> 'w state" where
  "report None s = s"
| "report (Some e) s = fmt_Println e s"

fun PathCopyDir :: "nat \<Rightarrow> 'w platform \<Rightarrow> path \<Rightarrow> path \<Rightarrow> 'w state \<Rightarrow> (error option \<times> 'w state) option"
  and PathCopyDir_loop :: "nat \<Rightarrow> 'w platform \<Rightarrow> path \<Rightarrow> path \<Rightarrow> FileInfo list \<Rightarrow> error option \<Rightarrow> 'w state \<Rightarrow> (error option \<times> 'w state) option" where
  "PathCopyDir 0 pf source dest s = None"
| "PathCopyDir (Suc n) pf source dest s =
     (case os_Stat pf source s of
        (Inl err, s1) \<Rightarrow> Some (Some err, s1)
      | (Inr sourceinfo, s1) \<Rightarrow>
          (case os_MkdirAll pf dest (Mode sourceinfo) s1 of
             (Some err, s2) \<Rightarrow> Some (Some err, s2)
           | (None, s2) \<Rightarrow>
               (case os_Open pf source s2 of
                  (directory, s3) \<Rightarrow>
                    (case file_Readdir pf (handle_of directory) (- 1) s3 of
                       ((objects, err), s4) \<Rightarrow> PathCopyDir_loop n pf source dest objects err s4))))"
| "PathCopyDir_loop n pf source dest [] err s = Some (err, s)"
| "PathCopyDir_loop n pf source dest (obj # objects) err s =
     (if IsDir obj
      then (case PathCopyDir n pf (source @ ''/'' @ Name obj) (dest @ ''/'' @ Name obj) s of
              None \<Rightarrow> None
            | Some (err1, s1) \<Rightarrow> PathCopyDir_loop n pf source dest objects err1 (report err1 s1))
      else (case CopyFile pf (source @ ''/'' @ Name obj) (dest @ ''/'' @ Name obj) 0 s of
              (err1, s1) \<Rightarrow> PathCopyDir_loop n pf source dest objects err1 (report err1 s1)))"

section \<open>md5.go\<close>

text \<open>Modelled from the spec: \<^verbatim>\<open>bufpool.Buf\<close> (package github.com/go-x-pkg/bufpool) is not
  under src/. Its \<^verbatim>\<open>Reset\<close> zeroes the length of the buffer and its \<^verbatim>\<open>Write\<close> appends
  the bytes; a buffer is the list of bytes it holds.\<close>

definition Buf_Reset :: "byte list \<Rightarrow> byte list" where
  "Buf_Reset b = []"

definition Buf_Write :: "byte list \<Rightarrow> byte list \<Rightarrow> byte list" where
  "Buf_Write b data = b @ data"

text \<open>\<^verbatim>\<open>type MD5 struct\<close> (md5.go 12-17). \<open>B\<close> is a pointer: \<open>None\<close> is \<^verbatim>\<open>nil\<close>.
  \<open>Latency\<close> is a \<^verbatim>\<open>time.Duration\<close>, \<open>Sum\<close> the 16 bytes of the digest.\<close>

record MD5 =
  Latency :: int
  Sum :: "byte list"
  Sz :: "64 word"
  B :: "byte list option"

text \<open>The deferred \<^verbatim>\<open>func() { m5.Latency = time.Since(start) }()\<close> (md5.go 27).\<close>

definition Do_deferred :: "'w platform \<Rightarrow> int \<Rightarrow> error option \<Rightarrow> MD5 \<Rightarrow> 'w state \<Rightarrow> error option \<times> MD5 \<times> 'w state" where
  "Do_deferred pf start r m5 s =
     (case time_Now pf s of (now, s1) \<Rightarrow> (r, m5\<lparr>Latency := now - start\<rparr>, s1))"

text \<open>\<^verbatim>\<open>(*MD5).Do\<close> (md5.go 24-54): the receiver is passed in and returned updated.
  \<^verbatim>\<open>uint64(fi.Size())\<close> keeps the 64 bits of the size.\<close>

definition Do :: "'w platform \<Rightarrow> MD5 \<Rightarrow> path \<Rightarrow> 'w state \<Rightarrow> error option \<times> MD5 \<times> 'w state" where
  "Do pf m5 p s =
     (case time_Now pf s of
        (start, s0) \<Rightarrow>
          (case os_Stat pf p s0 of
             (Inl err, s1) \<Rightarrow> Do_deferred pf start (Some err) m5 s1
           | (Inr fi, s1) \<Rightarrow>
               (case ioutil_ReadFile pf p s1 of
                  (Inl e, s2) \<Rightarrow> Do_deferred pf start None (m5\<lparr>Sz := Size fi\<rparr>) s2
                | (Inr data, s2) \<Rightarrow>
                    (case (case B m5 of
                             None \<Rightarrow> bufpool_NewBuf pf s2
                           | Some b \<Rightarrow> (b, s2)) of
                       (b, s3) \<Rightarrow>
                         Do_deferred pf start None
                           (m5\<lparr>Sz := Size fi, Sum := md5_Sum pf data,
                               B := Some (Buf_Write (Buf_Reset b) data)\<rparr>) s3))))"

section \<open>Properties of the log\<close>

text \<open>The library calls a function makes are the events it appends to the log.\<close>

definition new_events :: "'w state \<Rightarrow> 'w state \<Rightarrow> event list" where
  "new_events s s' = drop (length (trace s)) (trace s')"

text \<open>\<open>appends_only P s s'\<close>: the log of \<open>s'\<close> is the log of \<open>s\<close> followed by calls that
  all satisfy \<open>P\<close>.\<close>

definition appends_only :: "(call \<Rightarrow> bool) \<Rightarrow> 'w state \<Rightarrow> 'w state \<Rightarrow> bool" where
  "appends_only P s s' =
     (take (length (trace s)) (trace s') = trace s \<and>
      list_all (\<lambda>ev. P (fst ev)) (new_events s s'))"

text \<open>The log of a bounded retry of the call \<open>c\<close> with result \<open>r\<close>, as the spec words
  it: only the call \<open>c\<close> is made, at most \<open>budget\<close> times; every attempt but the last
  failed; on success the last attempt is the one that succeeded; on failure the budget
  is used up and the result is the error of the last attempt.\<close>

definition retry_log :: "call \<Rightarrow> nat \<Rightarrow> error option \<Rightarrow> event list \<Rightarrow> bool" where
  "retry_log c budget r evs =
     (map fst evs = replicate (length evs) c \<and> length evs \<le> budget \<and>
      list_all (\<lambda>ev. snd ev \<noteq> None) (butlast evs) \<and>
      (case r of
         None \<Rightarrow> evs \<noteq> [] \<and> snd (last evs) = None
       | Some e \<Rightarrow> length evs = budget \<and> snd (last evs) = Some e))"

text \<open>The log of the batch ensure over \<open>paths\<close> with result \<open>r\<close>, as the spec words it:
  each pair is checked with \<^verbatim>\<open>os.Stat\<close> first; when the stat answers "does not exist"
  the pair is created with \<^verbatim>\<open>os.MkdirAll\<close>; the first error of a stat (other than
  "does not exist") or of a creation is the result and ends the log.\<close>

fun batch_log :: "pathAndMode list \<Rightarrow> error option \<Rightarrow> event list \<Rightarrow> bool" where
  "batch_log [] r evs = (r = None \<and> evs = [])"
| "batch_log (x # xs) r [] = False"
| "batch_log (x # xs) r ((c, st) # evs) =
     (c = CStat (pam_p x) \<and>
      (if IsNotExist st
       then (case evs of
               [] \<Rightarrow> False
             | (c1, mk) # evs1 \<Rightarrow>
                 c1 = CMkdirAll (pam_p x) (pam_mode x) \<and>
                 (case mk of
                    Some e \<Rightarrow> r = Some e \<and> evs1 = []
                  | None \<Rightarrow> batch_log xs r evs1))
       else (case st of
               Some e \<Rightarrow> r = Some e \<and> evs = []
             | None \<Rightarrow> batch_log xs r evs)))"



text \<open>"Attempt every entry, report the last-seen error", as the spec words the
  multi-path helpers: \<open>Remove_each\<close> removes every path in turn and collects each
  result; \<open>last_seen\<close> is the last error among the results.\<close>

fun Remove_each :: "'w platform \<Rightarrow> path list \<Rightarrow> 'w state \<Rightarrow> error option list \<times> 'w state" where
  "Remove_each pf [] s = ([], s)"
| "Remove_each pf (p # paths) s =
     (case Remove pf p s of
        (r, s1) \<Rightarrow> (case Remove_each pf paths s1 of (rs, s2) \<Rightarrow> (r # rs, s2)))"

fun last_seen :: "error option list \<Rightarrow> error option" where
  "last_seen [] = None"
| "last_seen (r # rs) = (case last_seen rs of Some e \<Rightarrow> Some e | None \<Rightarrow> r)"

fun is_Rename :: "call \<Rightarrow> bool" where
  "is_Rename (CRename _ _) = True"
| "is_Rename _ = False"

section \<open>A demonstration platform\<close>

text \<open>A small concrete platform for the closed examples below. Its world is a number:
  how many more times removing \<^verbatim>\<open>/flaky\<close> fails. \<^verbatim>\<open>/d\<close> is a directory with the entries
  \<^verbatim>\<open>a\<close> (a file that cannot be opened), \<^verbatim>\<open>sub\<close> (a directory holding the file \<^verbatim>\<open>c\<close>),
  \<^verbatim>\<open>gone\<close> (listed as a directory, but its stat fails) and \<^verbatim>\<open>b\<close>; \<^verbatim>\<open>/f\<close> is a file of five bytes; \<^verbatim>\<open>/bad\<close> is a file whose bytes cannot be
  streamed; \<^verbatim>\<open>/unreadable\<close> can be stat'ed but not read; \<^verbatim>\<open>/grown\<close> is a file that gains a
  fourth byte between its stat and its read; \<^verbatim>\<open>/locked\<close> cannot be stat'ed;
  \<^verbatim>\<open>/busy\<close> can be neither removed nor renamed. \<open>demo_Dir\<close> cuts the last element off a
  path and \<open>md5_Sum\<close> is a stand-in of 16 bytes; the theorems that hold for every
  platform depend on neither.\<close>

definition demo_file :: "string \<Rightarrow> 64 word \<Rightarrow> FileInfo" where
  "demo_file n sz = \<lparr>Name = n, Size = sz, Mode = 0x1A4, IsDir = False\<rparr>"

definition demo_dir :: "string \<Rightarrow> FileInfo" where
  "demo_dir n = \<lparr>Name = n, Size = 4096, Mode = 0x800001ED, IsDir = True\<rparr>"

definition demo_stat :: "path \<Rightarrow> error + FileInfo" where
  "demo_stat p =
     (if p = ''/d'' then Inr (demo_dir ''d'')
      else if p = ''/d/sub'' then Inr (demo_dir ''sub'')
      else if p = ''/d/a'' then Inr (demo_file ''a'' 3)
      else if p = ''/d/b'' then Inr (demo_file ''b'' 3)
      else if p = ''/d/sub/c'' then Inr (demo_file ''c'' 3)
      else if p = ''/f'' then Inr (demo_file ''f'' 5)
      else if p = ''/bad'' then Inr (demo_file ''bad'' 3)
      else if p = ''/unreadable'' then Inr (demo_file ''unreadable'' 7)
      else if p = ''/grown'' then Inr (demo_file ''grown'' 3)
      else if p = ''/locked'' then Inl (PathError ''stat'' p EACCES)
      else Inl (PathError ''stat'' p ENOENT))"

definition demo_open :: "path \<Rightarrow> error + fd" where
  "demo_open p =
     (if p = ''/d'' then Inr 10
      else if p = ''/d/sub'' then Inr 11
      else if p = ''/d/a'' then Inl (PathError ''open'' p EACCES)
      else if p = ''/unreadable'' then Inl (PathError ''open'' p EACCES)
      else if p = ''/bad'' then Inr 23
      else (case demo_stat p of
              Inl _ \<Rightarrow> Inl (PathError ''open'' p ENOENT)
            | Inr _ \<Rightarrow> Inr 20))"

definition demo_Dir :: "path \<Rightarrow> path" where
  "demo_Dir p = take (scan_element p (length p) - 1) p"

definition demo :: "nat platform" where
  "demo =
     \<lparr>sys_Stat = (\<lambda>p w. (demo_stat p, w)),
      sys_Lstat = (\<lambda>p w. (demo_stat p, w)),
      sys_Mkdir = (\<lambda>p m w. (None, w)),
      sys_MkdirAll = (\<lambda>p m w. (None, w)),
      sys_Chmod = (\<lambda>p m w. (None, w)),
      sys_RemoveAll = (\<lambda>p w.
         if p = ''/busy'' then (Some (PathError ''unlinkat'' p EBUSY), w)
         else if p = ''/flaky'' \<and> 0 < w then (Some (PathError ''unlinkat'' p EBUSY), w - 1)
         else (None, w)),
      sys_Rename = (\<lambda>a b w.
         if a = ''/busy'' then (Some (LinkError ''rename'' a b EBUSY), w) else (None, w)),
      sys_Open = (\<lambda>p w. (demo_open p, w)),
      sys_Create = (\<lambda>p w. (Inr 30, w)),
      sys_Close = (\<lambda>f w. (None, w)),
      sys_Copy = (\<lambda>dst src w.
         (if src = 23 then Inl (PathError ''read'' ''/bad'' EIO) else Inr 3, w)),
      sys_Readdir = (\<lambda>f n w.
         ((if f = 10 then [demo_file ''a'' 3, demo_dir ''sub'', demo_dir ''gone'', demo_file ''b'' 3]
           else if f = 11 then [demo_file ''c'' 3]
           else [], None), w)),
      sys_ReadFile = (\<lambda>p w.
         (if p = ''/f'' then Inr [1, 2, 3, 4, 5]
          else if p = ''/unreadable'' then Inl (PathError ''open'' p EACCES)
          else if p = ''/grown'' then Inr [1, 2, 3, 4]
          else Inl (PathError ''open'' p ENOENT), w)),
      sys_Now = (\<lambda>w. (0, w)),
      sys_NewBuf = (\<lambda>w. ([], w)),
      filepath_Dir = demo_Dir,
      md5_Sum = (\<lambda>data. replicate 16 (of_nat (length data)))\<rparr>"

definition demo_start :: "nat \<Rightarrow> nat state" where
  "demo_start w = \<lparr>world = w, trace = []\<rparr>"

text \<open>\<open>fresh_MD5\<close> is the zero value \<^verbatim>\<open>MD5{}\<close>; \<open>used_MD5\<close> is a record as an earlier
  \<^verbatim>\<open>Do\<close> on an empty file leaves it: the MD5 digest of no bytes, size 0 and an empty
  buffer.\<close>

definition fresh_MD5 :: MD5 where
  "fresh_MD5 = \<lparr>Latency = 0, Sum = replicate 16 0, Sz = 0, B = None\<rparr>"

definition used_MD5 :: MD5 where
  "used_MD5 =
     \<lparr>Latency = 0,
      Sum = [0xd4, 0x1d, 0x8c, 0xd9, 0x8f, 0x00, 0xb2, 0x04,
             0xe9, 0x80, 0x09, 0x98, 0xec, 0xf8, 0x42, 0x7e],
      Sz = 0, B = Some []\<rparr>"

text \<open>Batches for \<^verbatim>\<open>EnsureMany\<close>.\<close>

definition demo_batch :: "pathAndMode list" where
  "demo_batch =
     [\<lparr>pam_p = ''/d'', pam_mode = 0x1ED\<rparr>, \<lparr>pam_p = ''/new'', pam_mode = 0x1ED\<rparr>,
      \<lparr>pam_p = ''/locked'', pam_mode = 0x1ED\<rparr>, \<lparr>pam_p = ''/new2'', pam_mode = 0x1ED\<rparr>]"

definition demo_failing_batch :: "pathAndMode list" where
  "demo_failing_batch = [\<lparr>pam_p = ''/locked'', pam_mode = 0x1ED\<rparr>]"

definition demo_rest_batch :: "pathAndMode list" where
  "demo_rest_batch = [\<lparr>pam_p = ''/new'', pam_mode = 0x1ED\<rparr>]"




section \<open>The log grows by one event per library call\<close>

lemma invoke_trace:
  "invoke c f out s = (r, s') \<Longrightarrow> trace s' = trace s @ [(c, out r)]"
  by (auto simp: invoke_def split: prod.splits)

lemma new_events_append: "trace s' = trace s @ evs \<Longrightarrow> new_events s s' = evs"
  by (simp add: new_events_def)

section \<open>Bounded retry: Remove and MV\<close>

lemma retry_log_first_success: "0 < budget \<Longrightarrow> retry_log c budget None [(c, None)]"
  by (simp add: retry_log_def)

lemma retry_log_last_failure: "retry_log c (Suc 0) (Some e) [(c, Some e)]"
  by (simp add: retry_log_def)

lemma retry_log_failure_then:
  assumes "retry_log c n r evs" and "0 < n"
  shows "retry_log c (Suc n) r ((c, Some e) # evs)"
proof -
  from assms have ne: "evs \<noteq> []"
    by (cases r) (auto simp: retry_log_def)
  with assms show ?thesis
    by (cases r) (auto simp: retry_log_def)
qed

lemma Remove_loop_log:
  "Remove_loop pf p attempt e s = (r, s') \<Longrightarrow>
   \<exists>evs. trace s' = trace s @ evs \<and>
     (if attempt > 0 then retry_log (CRemoveAll p) (nat attempt) r evs else evs = [] \<and> r = e)"
proof (induction pf p attempt e s arbitrary: r s' rule: Remove_loop.induct)
  case (1 pf p attempt e s)
  show ?case
  proof (cases "attempt > 0")
    case False
    with "1.prems" show ?thesis by (simp add: Remove_loop.simps)
  next
    case True
    obtain x s1 where call: "os_RemoveAll pf p s = (x, s1)" by (cases "os_RemoveAll pf p s")
    then have tr: "trace s1 = trace s @ [(CRemoveAll p, x)]"
      by (auto simp: os_RemoveAll_def dest: invoke_trace)
    show ?thesis
    proof (cases x)
      case None
      with True call "1.prems" have "r = None" "s' = s1" by (simp_all add: Remove_loop.simps)
      with tr None True show ?thesis
        by (auto intro!: exI [of _ "[(CRemoveAll p, None)]"] retry_log_first_success)
    next
      case (Some e1)
      with True call "1.prems" have rec: "Remove_loop pf p (attempt - 1) (Some e1) s1 = (r, s')"
        by (simp add: Remove_loop.simps)
      from "1.IH" [OF True call [symmetric] Some rec] obtain evs where
        evs: "trace s' = trace s1 @ evs"
          "if attempt - 1 > 0 then retry_log (CRemoveAll p) (nat (attempt - 1)) r evs else evs = [] \<and> r = Some e1"
        by blast
      show ?thesis
      proof (cases "attempt - 1 > 0")
        case False
        with True have "nat attempt = Suc 0" by simp
        with evs False tr Some True show ?thesis
          by (auto intro!: exI [of _ "[(CRemoveAll p, Some e1)]"] retry_log_last_failure)
      next
        case gt: True
        then have "nat attempt = Suc (nat (attempt - 1))" by simp
        with evs gt tr Some True retry_log_failure_then [of "CRemoveAll p" "nat (attempt - 1)" r evs e1]
        show ?thesis
          by (auto intro!: exI [of _ "(CRemoveAll p, Some e1) # evs"])
      qed
    qed
  qed
qed

lemma MV_loop_log:
  "MV_loop pf a b attempt e s = (r, s') \<Longrightarrow>
   \<exists>evs. trace s' = trace s @ evs \<and>
     (if attempt > 0 then retry_log (CRename a b) (nat attempt) r evs else evs = [] \<and> r = e)"
proof (induction pf a b attempt e s arbitrary: r s' rule: MV_loop.induct)
  case (1 pf a b attempt e s)
  show ?case
  proof (cases "attempt > 0")
    case False
    with "1.prems" show ?thesis by (simp add: MV_loop.simps)
  next
    case True
    obtain x s1 where call: "os_Rename pf a b s = (x, s1)" by (cases "os_Rename pf a b s")
    then have tr: "trace s1 = trace s @ [(CRename a b, x)]"
      by (auto simp: os_Rename_def dest: invoke_trace)
    show ?thesis
    proof (cases x)
      case None
      with True call "1.prems" have "r = None" "s' = s1" by (simp_all add: MV_loop.simps)
      with tr None True show ?thesis
        by (auto intro!: exI [of _ "[(CRename a b, None)]"] retry_log_first_success)
    next
      case (Some e1)
      with True call "1.prems" have rec: "MV_loop pf a b (attempt - 1) (Some e1) s1 = (r, s')"
        by (simp add: MV_loop.simps)
      from "1.IH" [OF True call [symmetric] Some rec] obtain evs where
        evs: "trace s' = trace s1 @ evs"
          "if attempt - 1 > 0 then retry_log (CRename a b) (nat (attempt - 1)) r evs else evs = [] \<and> r = Some e1"
        by blast
      show ?thesis
      proof (cases "attempt - 1 > 0")
        case False
        with True have "nat attempt = Suc 0" by simp
        with evs False tr Some True show ?thesis
          by (auto intro!: exI [of _ "[(CRename a b, Some e1)]"] retry_log_last_failure)
      next
        case gt: True
        then have "nat attempt = Suc (nat (attempt - 1))" by simp
        with evs gt tr Some True retry_log_failure_then [of "CRename a b" "nat (attempt - 1)" r evs e1]
        show ?thesis
          by (auto intro!: exI [of _ "(CRename a b, Some e1) # evs"])
      qed
    qed
  qed
qed

lemma Remove_log:
  assumes "Remove pf p s = (r, s')"
  shows "trace s' = trace s @ new_events s s' \<and> retry_log (CRemoveAll p) 20 r (new_events s s')"
proof -
  from assms have "Remove_loop pf p 20 None s = (r, s')"
    by (simp add: Remove_def RemoveAttempts_def)
  from Remove_loop_log [OF this] obtain evs where
    "trace s' = trace s @ evs" "retry_log (CRemoveAll p) 20 r evs" by auto
  then show ?thesis by (simp add: new_events_append)
qed

lemma MV_log:
  assumes "MV pf a b s = (r, s')"
  shows "trace s' = trace s @ new_events s s' \<and> retry_log (CRename a b) 20 r (new_events s s')"
proof -
  from assms have "MV_loop pf a b 20 None s = (r, s')"
    by (simp add: MV_def MvAttempts_def)
  from MV_loop_log [OF this] obtain evs where
    "trace s' = trace s @ evs" "retry_log (CRename a b) 20 r evs" by auto
  then show ?thesis by (simp add: new_events_append)
qed

text \<open>Claim C3. \<^verbatim>\<open>Remove\<close> and \<^verbatim>\<open>MV\<close> return on every platform (both loops are total
  functions: the attempt counter, which starts at 20, decreases with every failure).
  The calls they make are \<^verbatim>\<open>os.RemoveAll(path)\<close>, respectively
  \<^verbatim>\<open>os.Rename(oldpath, newpath)\<close>, and nothing else, at most 20 times; every attempt
  before the last one failed, so the first success ends the loop; the result is
  \<^verbatim>\<open>nil\<close> exactly when the last attempt succeeded, and otherwise all 20 attempts were
  made and the result is the error of the last one.\<close>

theorem Remove_MV_bounded_retry:
  assumes "Remove pf p s = (r, s')" and "MV pf oldpath newpath t = (q, t')"
  shows "trace s' = trace s @ new_events s s' \<and>
         retry_log (CRemoveAll p) 20 r (new_events s s') \<and>
         trace t' = trace t @ new_events t t' \<and>
         retry_log (CRename oldpath newpath) 20 q (new_events t t')"
  using Remove_log [OF assms(1)] MV_log [OF assms(2)] by simp

text \<open>On the demonstration platform: removing \<^verbatim>\<open>/flaky\<close> succeeds at the third attempt
  when two failures are pending, and moving \<^verbatim>\<open>/busy\<close> gives up after 20 attempts.\<close>

lemma demo_Remove_flaky:
  "Remove demo ''/flaky'' (demo_start 2) =
     (None, \<lparr>world = 0, trace =
        [(CRemoveAll ''/flaky'', Some (PathError ''unlinkat'' ''/flaky'' EBUSY)),
         (CRemoveAll ''/flaky'', Some (PathError ''unlinkat'' ''/flaky'' EBUSY)),
         (CRemoveAll ''/flaky'', None)]\<rparr>)"
  by code_simp

lemma demo_MV_busy:
  "MV demo ''/busy'' ''/x'' (demo_start 0) =
     (Some (LinkError ''rename'' ''/busy'' ''/x'' EBUSY),
      \<lparr>world = 0, trace =
        replicate 20 (CRename ''/busy'' ''/x'', Some (LinkError ''rename'' ''/busy'' ''/x'' EBUSY))\<rparr>)"
  by code_simp

theorem Remove_MV_bounded_retry_witness:
  "Remove demo ''/flaky'' (demo_start 2) =
     (None, \<lparr>world = 0, trace =
        [(CRemoveAll ''/flaky'', Some (PathError ''unlinkat'' ''/flaky'' EBUSY)),
         (CRemoveAll ''/flaky'', Some (PathError ''unlinkat'' ''/flaky'' EBUSY)),
         (CRemoveAll ''/flaky'', None)]\<rparr>) \<and>
   MV demo ''/busy'' ''/x'' (demo_start 0) =
     (Some (LinkError ''rename'' ''/busy'' ''/x'' EBUSY),
      \<lparr>world = 0, trace =
        replicate 20 (CRename ''/busy'' ''/x'', Some (LinkError ''rename'' ''/busy'' ''/x'' EBUSY))\<rparr>) \<and>
   retry_log (CRemoveAll ''/flaky'') 20 None
     [(CRemoveAll ''/flaky'', Some (PathError ''unlinkat'' ''/flaky'' EBUSY)),
      (CRemoveAll ''/flaky'', Some (PathError ''unlinkat'' ''/flaky'' EBUSY)),
      (CRemoveAll ''/flaky'', None)] \<and>
   retry_log (CRename ''/busy'' ''/x'') 20 (Some (LinkError ''rename'' ''/busy'' ''/x'' EBUSY))
     (replicate 20 (CRename ''/busy'' ''/x'', Some (LinkError ''rename'' ''/busy'' ''/x'' EBUSY)))"
  using Remove_MV_bounded_retry [OF demo_Remove_flaky demo_MV_busy] demo_Remove_flaky demo_MV_busy
  by (simp add: new_events_def demo_start_def)

section \<open>Batch ensure: EnsureMany\<close>

lemma EnsureMany_log:
  "EnsureMany pf paths s = (r, s') \<Longrightarrow> \<exists>evs. trace s' = trace s @ evs \<and> batch_log paths r evs"
proof (induction paths arbitrary: s)
  case Nil
  then show ?case by simp
next
  case (Cons x xs)
  obtain st s1 where stat: "os_Stat pf (pam_p x) s = (st, s1)"
    by (cases "os_Stat pf (pam_p x) s")
  then have tr1: "trace s1 = trace s @ [(CStat (pam_p x), errof st)]"
    by (auto simp: os_Stat_def dest: invoke_trace)
  show ?case
  proof (cases "IsNotExist (errof st)")
    case True
    obtain mk s2 where mkdir: "os_MkdirAll pf (pam_p x) (pam_mode x) s1 = (mk, s2)"
      by (cases "os_MkdirAll pf (pam_p x) (pam_mode x) s1")
    then have tr2: "trace s2 = trace s1 @ [(CMkdirAll (pam_p x) (pam_mode x), mk)]"
      by (auto simp: os_MkdirAll_def dest: invoke_trace)
    show ?thesis
    proof (cases mk)
      case (Some e)
      with Cons.prems stat True mkdir have "r = Some e" "s' = s2" by simp_all
      with tr1 tr2 True Some show ?thesis by simp
    next
      case None
      with Cons.prems stat True mkdir have "EnsureMany pf xs s2 = (r, s')" by simp
      from Cons.IH [OF this] obtain evs where "trace s' = trace s2 @ evs" "batch_log xs r evs"
        by blast
      with tr1 tr2 True None show ?thesis by simp
    qed
  next
    case False
    show ?thesis
    proof (cases "errof st")
      case (Some e)
      with Cons.prems stat False have "r = Some e" "s' = s1" by simp_all
      with tr1 False Some show ?thesis by simp
    next
      case None
      with Cons.prems stat False have "EnsureMany pf xs s1 = (r, s')" by simp
      from Cons.IH [OF this] obtain evs where "trace s' = trace s1 @ evs" "batch_log xs r evs"
        by blast
      with tr1 False None show ?thesis by simp
    qed
  qed
qed

text \<open>Claim C8. For every batch, the calls \<^verbatim>\<open>EnsureMany\<close> makes are, pair by pair in
  order: \<^verbatim>\<open>os.Stat\<close> of the pair's path; \<^verbatim>\<open>os.MkdirAll\<close> of the path with the pair's
  mode when the stat answered "does not exist" (the library's recursive creation, not
  this package's \<^verbatim>\<open>MkdirAll\<close> or \<^verbatim>\<open>Ensure\<close>). The first stat that fails otherwise, or
  the first creation that fails, is the result, and it is the last call made: the
  remaining pairs are not attempted. The result is \<^verbatim>\<open>nil\<close> only when every pair went
  through.\<close>

theorem EnsureMany_first_failure_aborts:
  assumes "EnsureMany pf paths s = (r, s')"
  shows "trace s' = trace s @ new_events s s' \<and> batch_log paths r (new_events s s')"
proof -
  from EnsureMany_log [OF assms] obtain evs where
    "trace s' = trace s @ evs" "batch_log paths r evs" by blast
  then show ?thesis by (simp add: new_events_append)
qed

text \<open>On the demonstration platform: \<^verbatim>\<open>/d\<close> exists, \<^verbatim>\<open>/new\<close> is created, the stat of
  \<^verbatim>\<open>/locked\<close> fails, and \<^verbatim>\<open>/new2\<close> is never looked at.\<close>

lemma demo_EnsureMany:
  "EnsureMany demo demo_batch (demo_start 0) =
     (Some (PathError ''stat'' ''/locked'' EACCES),
      \<lparr>world = 0, trace =
        [(CStat ''/d'', None),
         (CStat ''/new'', Some (PathError ''stat'' ''/new'' ENOENT)),
         (CMkdirAll ''/new'' 0x1ED, None),
         (CStat ''/locked'', Some (PathError ''stat'' ''/locked'' EACCES))]\<rparr>)"
  by code_simp

theorem EnsureMany_first_failure_aborts_witness:
  "EnsureMany demo demo_batch (demo_start 0) =
     (Some (PathError ''stat'' ''/locked'' EACCES),
      \<lparr>world = 0, trace =
        [(CStat ''/d'', None),
         (CStat ''/new'', Some (PathError ''stat'' ''/new'' ENOENT)),
         (CMkdirAll ''/new'' 0x1ED, None),
         (CStat ''/locked'', Some (PathError ''stat'' ''/locked'' EACCES))]\<rparr>) \<and>
   batch_log demo_batch (Some (PathError ''stat'' ''/locked'' EACCES))
     [(CStat ''/d'', None),
      (CStat ''/new'', Some (PathError ''stat'' ''/new'' ENOENT)),
      (CMkdirAll ''/new'' 0x1ED, None),
      (CStat ''/locked'', Some (PathError ''stat'' ''/locked'' EACCES))]"
  using EnsureMany_first_failure_aborts [OF demo_EnsureMany] demo_EnsureMany
  by (simp add: new_events_def demo_start_def)

section \<open>Multi-path helpers: AbsentMany and EnsureMany\<close>

lemma retry_log_attempted:
  assumes "retry_log c (Suc n) r evs"
  shows "c \<in> fst ` set evs"
proof -
  from assms have ne: "evs \<noteq> []"
    by (cases r) (auto simp: retry_log_def)
  from assms have "map fst evs = replicate (length evs) c"
    by (simp add: retry_log_def)
  then have "set (map fst evs) = set (replicate (length evs) c)" by simp
  with ne show ?thesis by simp
qed

lemma Remove_attempted:
  assumes "Remove pf p s = (r, s')"
  shows "\<exists>evs. trace s' = trace s @ evs \<and> CRemoveAll p \<in> fst ` set evs"
proof -
  from Remove_log [OF assms] have
    "trace s' = trace s @ new_events s s'" "retry_log (CRemoveAll p) (Suc 19) r (new_events s s')"
    by simp_all
  then show ?thesis using retry_log_attempted by blast
qed

lemma AbsentMany_loop_last_seen:
  "AbsentMany_loop pf paths err s =
     (case last_seen (fst (Remove_each pf paths s)) of Some e \<Rightarrow> Some e | None \<Rightarrow> err,
      snd (Remove_each pf paths s))"
proof (induction paths arbitrary: err s)
  case Nil
  then show ?case by simp
next
  case (Cons p paths)
  obtain r s1 where rm: "Remove pf p s = (r, s1)" by (cases "Remove pf p s")
  obtain rs s2 where rest: "Remove_each pf paths s1 = (rs, s2)" by (cases "Remove_each pf paths s1")
  show ?case
  proof (cases r)
    case None
    with rm rest Cons.IH [of err s1] show ?thesis
      by (simp split: option.splits)
  next
    case (Some e)
    with rm rest Cons.IH [of "Some e" s1] show ?thesis
      by (simp split: option.splits)
  qed
qed

lemma Remove_each_attempts_all:
  "Remove_each pf paths s = (rs, s') \<Longrightarrow>
   length rs = length paths \<and>
   (\<exists>evs. trace s' = trace s @ evs \<and> list_all (\<lambda>p. CRemoveAll p \<in> fst ` set evs) paths)"
proof (induction paths arbitrary: s rs s')
  case Nil
  then show ?case by simp
next
  case (Cons p paths)
  obtain r s1 where rm: "Remove pf p s = (r, s1)" by (cases "Remove pf p s")
  obtain rs1 s2 where rest: "Remove_each pf paths s1 = (rs1, s2)" by (cases "Remove_each pf paths s1")
  from Cons.prems rm rest have eq: "rs = r # rs1" "s' = s2" by simp_all
  from Remove_attempted [OF rm] obtain evs1 where
    evs1: "trace s1 = trace s @ evs1" "CRemoveAll p \<in> fst ` set evs1" by blast
  from Cons.IH [OF rest] obtain evs2 where
    len: "length rs1 = length paths" and
    evs2: "trace s2 = trace s1 @ evs2" "list_all (\<lambda>p. CRemoveAll p \<in> fst ` set evs2) paths"
    by blast
  from evs2(2) have "list_all (\<lambda>p. CRemoveAll p \<in> fst ` set (evs1 @ evs2)) paths"
    by (auto simp: list_all_iff)
  with evs1 evs2(1) have
    "trace s2 = trace s @ (evs1 @ evs2) \<and> list_all (\<lambda>p. CRemoveAll p \<in> fst ` set (evs1 @ evs2)) (p # paths)"
    by auto
  with eq len show ?case by auto
qed

lemma EnsureMany_after_failure:
  "fst (EnsureMany pf paths s) \<noteq> None \<Longrightarrow> EnsureMany pf (paths @ rest) s = EnsureMany pf paths s"
proof (induction paths arbitrary: s)
  case Nil
  then show ?case by simp
next
  case (Cons x xs)
  then show ?case
    by (auto split: prod.splits option.splits if_splits)
qed

text \<open>Claim C9, as amended. \<^verbatim>\<open>AbsentMany\<close> removes every path of its list, whatever
  happened to the earlier ones: its result and final state are those of removing each
  path in turn, one result per path, the result being the last error seen (\<^verbatim>\<open>nil\<close>
  when no removal failed), and the log holds an \<^verbatim>\<open>os.RemoveAll\<close> call for every path.
  \<^verbatim>\<open>EnsureMany\<close> does not behave this way: once a batch has failed, pairs that follow
  it change neither the result nor the state, so they are not attempted.\<close>

theorem AbsentMany_attempts_every_entry:
  "AbsentMany pf paths s =
     (last_seen (fst (Remove_each pf paths s)), snd (Remove_each pf paths s)) \<and>
   length (fst (Remove_each pf paths s)) = length paths \<and>
   list_all (\<lambda>p. CRemoveAll p \<in> fst ` set (new_events s (snd (AbsentMany pf paths s)))) paths \<and>
   (fst (EnsureMany pf batch t) \<noteq> None \<longrightarrow>
      EnsureMany pf (batch @ rest) t = EnsureMany pf batch t)"
proof -
  obtain rs s' where each: "Remove_each pf paths s = (rs, s')" by (cases "Remove_each pf paths s")
  have am: "AbsentMany pf paths s = (last_seen rs, s')"
    using each by (simp add: AbsentMany_def AbsentMany_loop_last_seen split: option.splits)
  from Remove_each_attempts_all [OF each] obtain evs where
    len: "length rs = length paths" and
    evs: "trace s' = trace s @ evs" "list_all (\<lambda>p. CRemoveAll p \<in> fst ` set evs) paths"
    by blast
  from evs(1) have "new_events s s' = evs" by (rule new_events_append)
  with am each len evs(2) show ?thesis
    by (simp add: EnsureMany_after_failure)
qed

text \<open>On the demonstration platform: \<^verbatim>\<open>/flaky\<close> is removed at the second attempt,
  \<^verbatim>\<open>/busy\<close> fails 20 times, \<^verbatim>\<open>/gone\<close> is still removed, and the error of \<^verbatim>\<open>/busy\<close> is
  the result.\<close>

lemma demo_AbsentMany:
  "AbsentMany demo [''/flaky'', ''/busy'', ''/gone''] (demo_start 1) =
     (Some (PathError ''unlinkat'' ''/busy'' EBUSY),
      \<lparr>world = 0, trace =
         [(CRemoveAll ''/flaky'', Some (PathError ''unlinkat'' ''/flaky'' EBUSY)),
          (CRemoveAll ''/flaky'', None)] @
         replicate 20 (CRemoveAll ''/busy'', Some (PathError ''unlinkat'' ''/busy'' EBUSY)) @
         [(CRemoveAll ''/gone'', None)]\<rparr>)"
  by code_simp

lemma demo_EnsureMany_locked:
  "EnsureMany demo demo_failing_batch (demo_start 0) =
     (Some (PathError ''stat'' ''/locked'' EACCES),
      \<lparr>world = 0, trace = [(CStat ''/locked'', Some (PathError ''stat'' ''/locked'' EACCES))]\<rparr>)"
  by code_simp

theorem AbsentMany_attempts_every_entry_witness:
  "AbsentMany demo [''/flaky'', ''/busy'', ''/gone''] (demo_start 1) =
     (Some (PathError ''unlinkat'' ''/busy'' EBUSY),
      \<lparr>world = 0, trace =
         [(CRemoveAll ''/flaky'', Some (PathError ''unlinkat'' ''/flaky'' EBUSY)),
          (CRemoveAll ''/flaky'', None)] @
         replicate 20 (CRemoveAll ''/busy'', Some (PathError ''unlinkat'' ''/busy'' EBUSY)) @
         [(CRemoveAll ''/gone'', None)]\<rparr>) \<and>
   fst (EnsureMany demo demo_failing_batch (demo_start 0)) \<noteq> None \<and>
   EnsureMany demo (demo_failing_batch @ demo_rest_batch) (demo_start 0) =
     (Some (PathError ''stat'' ''/locked'' EACCES),
      \<lparr>world = 0, trace = [(CStat ''/locked'', Some (PathError ''stat'' ''/locked'' EACCES))]\<rparr>)"
proof -
  have failed: "fst (EnsureMany demo demo_failing_batch (demo_start 0)) \<noteq> None"
    by (simp add: demo_EnsureMany_locked)
  from AbsentMany_attempts_every_entry
         [of demo "[''/flaky'', ''/busy'', ''/gone'']" "demo_start 1"
             demo_failing_batch "demo_start 0" demo_rest_batch]
  have "EnsureMany demo (demo_failing_batch @ demo_rest_batch) (demo_start 0) =
        EnsureMany demo demo_failing_batch (demo_start 0)"
    using failed by blast
  with failed demo_AbsentMany demo_EnsureMany_locked show ?thesis by simp
qed

text \<open>Claim C9 as stated fails for the multi-path ensure helper: the stat of \<^verbatim>\<open>/locked\<close>
  fails, \<^verbatim>\<open>EnsureMany\<close> returns that error, and \<^verbatim>\<open>/new\<close> is never attempted.\<close>

theorem EnsureMany_skips_later_entries_counterexample:
  "EnsureMany demo
     [\<lparr>pam_p = ''/locked'', pam_mode = 0x1ED\<rparr>, \<lparr>pam_p = ''/new'', pam_mode = 0x1ED\<rparr>]
     (demo_start 0) =
     (Some (PathError ''stat'' ''/locked'' EACCES),
      \<lparr>world = 0, trace = [(CStat ''/locked'', Some (PathError ''stat'' ''/locked'' EACCES))]\<rparr>)"
  by code_simp

section \<open>Which calls a function can make\<close>

lemma appends_onlyI:
  "trace s' = trace s @ evs \<Longrightarrow> list_all (\<lambda>ev. P (fst ev)) evs \<Longrightarrow> appends_only P s s'"
  by (simp add: appends_only_def new_events_def)

lemma appends_onlyD:
  "appends_only P s s' \<Longrightarrow> \<exists>evs. trace s' = trace s @ evs \<and> list_all (\<lambda>ev. P (fst ev)) evs"
  unfolding appends_only_def new_events_def
  by (metis append_take_drop_id)


lemma appends_only_trans:
  assumes "appends_only P s s1" and "appends_only P s1 s2"
  shows "appends_only P s s2"
proof -
  from appends_onlyD [OF assms(1)] obtain evs1 where
    1: "trace s1 = trace s @ evs1" "list_all (\<lambda>ev. P (fst ev)) evs1" by blast
  from appends_onlyD [OF assms(2)] obtain evs2 where
    2: "trace s2 = trace s1 @ evs2" "list_all (\<lambda>ev. P (fst ev)) evs2" by blast
  from 1 2 have "trace s2 = trace s @ (evs1 @ evs2)" "list_all (\<lambda>ev. P (fst ev)) (evs1 @ evs2)"
    by simp_all
  then show ?thesis by (rule appends_onlyI)
qed

lemma appends_only_invoke:
  "invoke c f out s = (r, s') \<Longrightarrow> P c \<Longrightarrow> appends_only P s s'"
  by (rule appends_onlyI [where evs = "[(c, out r)]"]) (auto dest: invoke_trace)

lemma MkdirAll_create_calls:
  assumes "MkdirAll_create pf p perm s = (r, s')"
  shows "appends_only (\<lambda>c. \<not> is_Rename c) s s'"
proof -
  obtain mk s1 where mk: "os_Mkdir pf p perm s = (mk, s1)" by (cases "os_Mkdir pf p perm s")
  then have a1: "appends_only (\<lambda>c. \<not> is_Rename c) s s1"
    by (auto simp: os_Mkdir_def intro: appends_only_invoke)
  show ?thesis
  proof (cases mk)
    case None
    with assms mk have "os_Chmod pf p perm s1 = (r, s')" by (simp add: MkdirAll_create_def)
    then have "appends_only (\<lambda>c. \<not> is_Rename c) s1 s'"
      by (auto simp: os_Chmod_def intro: appends_only_invoke)
    with a1 show ?thesis by (rule appends_only_trans)
  next
    case (Some err)
    obtain ls s2 where ls: "os_Lstat pf p s1 = (ls, s2)" by (cases "os_Lstat pf p s1")
    then have a2: "appends_only (\<lambda>c. \<not> is_Rename c) s1 s2"
      by (auto simp: os_Lstat_def intro: appends_only_invoke)
    from assms mk Some ls have "s' = s2"
      by (auto simp: MkdirAll_create_def split: sum.splits if_splits)
    with a1 a2 show ?thesis by (auto intro: appends_only_trans)
  qed
qed

lemma MkdirAll_calls:
  "MkdirAll pf p perm s = (r, s') \<Longrightarrow> appends_only (\<lambda>c. \<not> is_Rename c) s s'"
proof (induction pf p perm s arbitrary: r s' rule: MkdirAll.induct)
  case (1 pf p perm s)
  obtain st s1 where st: "os_Stat pf p s = (st, s1)" by (cases "os_Stat pf p s")
  then have a1: "appends_only (\<lambda>c. \<not> is_Rename c) s s1"
    by (auto simp: os_Stat_def intro: appends_only_invoke)
  show ?case
  proof (cases st)
    case (Inr dir)
    with "1.prems" st have "s' = s1"
      by (auto simp: MkdirAll.simps split: if_splits)
    with a1 show ?thesis by simp
  next
    case (Inl e)
    show ?thesis
    proof (cases "1 < scan_element p (skip_trailing p (length p))")
      case False
      with "1.prems" st Inl have "MkdirAll_create pf p perm s1 = (r, s')"
        by (simp add: MkdirAll.simps)
      from a1 MkdirAll_create_calls [OF this] show ?thesis by (rule appends_only_trans)
    next
      case True
      obtain r2 s2 where rec:
        "MkdirAll pf (take (scan_element p (skip_trailing p (length p)) - 1) p) perm s1 = (r2, s2)"
        by (cases "MkdirAll pf (take (scan_element p (skip_trailing p (length p)) - 1) p) perm s1")
      from "1.IH" [OF st [symmetric] Inl True rec]
      have a2: "appends_only (\<lambda>c. \<not> is_Rename c) s1 s2" .
      show ?thesis
      proof (cases r2)
        case (Some err)
        with "1.prems" st Inl True rec have "s' = s2" by (simp add: MkdirAll.simps)
        with a1 a2 show ?thesis by (auto intro: appends_only_trans)
      next
        case None
        with "1.prems" st Inl True rec have "MkdirAll_create pf p perm s2 = (r, s')"
          by (simp add: MkdirAll.simps)
        from MkdirAll_create_calls [OF this] a1 a2 show ?thesis
          by (blast intro: appends_only_trans)
      qed
    qed
  qed
qed

lemma IsExists_calls:
  assumes "IsExists pf p s = (r, s')"
  shows "appends_only (\<lambda>c. \<not> is_Rename c) s s'"
proof -
  obtain st s1 where st: "os_Stat pf p s = (st, s1)" by (cases "os_Stat pf p s")
  then have a1: "appends_only (\<lambda>c. \<not> is_Rename c) s s1"
    by (auto simp: os_Stat_def intro: appends_only_invoke)
  from assms st have "s' = s1"
    by (auto simp: IsExists_def split: sum.splits if_splits)
  with a1 show ?thesis by simp
qed

lemma Ensure_calls:
  assumes "Ensure pf p perm s = (r, s')"
  shows "appends_only (\<lambda>c. \<not> is_Rename c) s s'"
proof -
  obtain ok e s1 where ex: "IsExists pf p s = ((ok, e), s1)"
    by (cases "IsExists pf p s") auto
  note a1 = IsExists_calls [OF ex]
  show ?thesis
  proof (cases "e = None \<and> \<not> ok")
    case False
    with assms ex have "s' = s1"
      by (auto simp: Ensure_def split: option.splits)
    with a1 show ?thesis by simp
  next
    case True
    obtain r2 s2 where mk: "MkdirAll pf p perm s1 = (r2, s2)" by (cases "MkdirAll pf p perm s1")
    with assms ex True have "s' = s2"
      by (auto simp: Ensure_def split: option.splits)
    with a1 MkdirAll_calls [OF mk] show ?thesis by (auto intro: appends_only_trans)
  qed
qed

section \<open>Rename\<close>

text \<open>Claim C10. Whenever \<^verbatim>\<open>Ensure\<close> on the parent directory of \<^verbatim>\<open>newpath\<close> fails,
  \<^verbatim>\<open>Rename\<close> returns \<^verbatim>\<open>nil\<close> in the state that \<^verbatim>\<open>Ensure\<close> left: the error is not passed
  on, and no \<^verbatim>\<open>os.Rename\<close> call is among the calls made.\<close>

theorem Rename_swallows_ensure_failure:
  assumes "Ensure pf (filepath_Dir pf newpath) perm s = (Some e, s1)"
  shows "Rename pf oldpath newpath perm s = (None, s1) \<and>
         appends_only (\<lambda>c. \<not> is_Rename c) s s1"
  using assms Ensure_calls [OF assms] by (simp add: Rename_def)

text \<open>On the demonstration platform the parent \<^verbatim>\<open>/locked\<close> cannot be stat'ed.\<close>

lemma demo_Ensure_locked:
  "Ensure demo (filepath_Dir demo ''/locked/x'') 0x1ED (demo_start 0) =
     (Some (PathError ''stat'' ''/locked'' EACCES),
      \<lparr>world = 0, trace = [(CStat ''/locked'', Some (PathError ''stat'' ''/locked'' EACCES))]\<rparr>)"
  by code_simp

theorem Rename_swallows_ensure_failure_witness:
  "Ensure demo (filepath_Dir demo ''/locked/x'') 0x1ED (demo_start 0) =
     (Some (PathError ''stat'' ''/locked'' EACCES),
      \<lparr>world = 0, trace = [(CStat ''/locked'', Some (PathError ''stat'' ''/locked'' EACCES))]\<rparr>) \<and>
   Rename demo ''/a'' ''/locked/x'' 0x1ED (demo_start 0) =
     (None,
      \<lparr>world = 0, trace = [(CStat ''/locked'', Some (PathError ''stat'' ''/locked'' EACCES))]\<rparr>)"
  using Rename_swallows_ensure_failure [OF demo_Ensure_locked, of "''/a''"] demo_Ensure_locked
  by simp

section \<open>Ensure and MkdirAll on a regular file\<close>

text \<open>Claim C2, as amended. For a path \<open>F\<close> whose stat succeeds and reports a
  non-directory, \<^verbatim>\<open>MkdirAll\<close> returns the "not a directory" error
  \<^verbatim>\<open>&os.PathError{"mkdir", F, syscall.ENOTDIR}\<close>, which carries \<open>F\<close>. \<^verbatim>\<open>Ensure\<close> calls
  \<^verbatim>\<open>MkdirAll\<close> only for a path that \<^verbatim>\<open>IsExists\<close> reports absent, so on the same \<open>F\<close> it
  returns \<^verbatim>\<open>nil\<close> after the one stat.\<close>

theorem MkdirAll_rejects_regular_file:
  assumes "os_Stat pf F s = (Inr fi, s1)" and "\<not> IsDir fi"
  shows "MkdirAll pf F perm s = (Some (PathError ''mkdir'' F ENOTDIR), s1) \<and>
         Ensure pf F perm s = (None, s1)"
  using assms by (simp add: MkdirAll.simps Ensure_def IsExists_def)

lemma demo_Stat_f:
  "os_Stat demo ''/f'' (demo_start 0) =
     (Inr (demo_file ''f'' 5), \<lparr>world = 0, trace = [(CStat ''/f'', None)]\<rparr>)"
  by code_simp

theorem MkdirAll_rejects_regular_file_witness:
  "os_Stat demo ''/f'' (demo_start 0) =
     (Inr (demo_file ''f'' 5), \<lparr>world = 0, trace = [(CStat ''/f'', None)]\<rparr>) \<and>
   \<not> IsDir (demo_file ''f'' 5) \<and>
   MkdirAll demo ''/f'' 0x1ED (demo_start 0) =
     (Some (PathError ''mkdir'' ''/f'' ENOTDIR), \<lparr>world = 0, trace = [(CStat ''/f'', None)]\<rparr>)"
proof -
  have nd: "\<not> IsDir (demo_file ''f'' 5)" by (simp add: demo_file_def)
  from MkdirAll_rejects_regular_file [OF demo_Stat_f nd, of "0x1ED"] demo_Stat_f nd
  show ?thesis by simp
qed

text \<open>Claim C2 as stated fails for \<^verbatim>\<open>Ensure\<close>: \<^verbatim>\<open>/f\<close> exists and is a regular file, and
  \<^verbatim>\<open>Ensure\<close> reports success.\<close>

theorem Ensure_accepts_regular_file_counterexample:
  "os_Stat demo ''/f'' (demo_start 0) =
     (Inr (demo_file ''f'' 5), \<lparr>world = 0, trace = [(CStat ''/f'', None)]\<rparr>) \<and>
   \<not> IsDir (demo_file ''f'' 5) \<and>
   Ensure demo ''/f'' 0x1ED (demo_start 0) =
     (None, \<lparr>world = 0, trace = [(CStat ''/f'', None)]\<rparr>)"
  by code_simp

section \<open>CopyFile\<close>

text \<open>The errors of the other steps are returned: of the open, of the create, and,
  once the bytes are streamed, of the stat and chmod that apply the mode.\<close>

lemma CopyFile_returns_open_error:
  "os_Open pf source s = (Inl e, s1) \<Longrightarrow> CopyFile pf source dest perm s = (Some e, s1)"
  by (simp add: CopyFile_def)

lemma CopyFile_returns_create_error:
  assumes "os_Open pf source s = (Inr sourcefile, s1)"
      and "os_Create pf dest s1 = (Inl e, s2)"
  shows "CopyFile pf source dest perm s = (Some e, file_Close pf sourcefile s2)"
  using assms by (simp add: CopyFile_def)

lemma CopyFile_returns_chmod_error:
  assumes "os_Open pf source s = (Inr sourcefile, s1)"
      and "os_Create pf dest s1 = (Inr destfile, s2)"
      and "io_Copy pf destfile sourcefile s2 = (Inr written, s3)"
      and "CopyFile_chmod pf source dest perm s3 = (r, s4)"
  shows "CopyFile pf source dest perm s =
           (r, file_Close pf sourcefile (file_Close pf destfile s4))"
  using assms by (simp add: CopyFile_def)

lemma CopyFile_chmod_custom_mode:
  "perm \<noteq> 0 \<Longrightarrow> CopyFile_chmod pf source dest perm s = os_Chmod pf dest perm s"
  by (cases "os_Chmod pf dest perm s") (auto simp: CopyFile_chmod_def split: option.splits)

text \<open>Claim C1 does not hold of the code: when the source was opened, the destination
  created and \<^verbatim>\<open>io.Copy\<close> fails, \<^verbatim>\<open>CopyFile\<close> skips the chmod, closes both files and
  returns \<^verbatim>\<open>nil\<close>; the error of \<^verbatim>\<open>io.Copy\<close> is lost.\<close>

theorem CopyFile_swallows_stream_error:
  assumes "os_Open pf source s = (Inr sourcefile, s1)"
      and "os_Create pf dest s1 = (Inr destfile, s2)"
      and "io_Copy pf destfile sourcefile s2 = (Inl e, s3)"
  shows "CopyFile pf source dest perm s =
           (None, file_Close pf sourcefile (file_Close pf destfile s3))"
  using assms by (simp add: CopyFile_def)

text \<open>On the demonstration platform the bytes of \<^verbatim>\<open>/bad\<close> cannot be streamed.\<close>

lemma demo_Open_bad:
  "os_Open demo ''/bad'' (demo_start 0) = (Inr 23, \<lparr>world = 0, trace = [(COpen ''/bad'', None)]\<rparr>)"
  by code_simp

lemma demo_Create_bad:
  "os_Create demo ''/out/bad'' \<lparr>world = 0, trace = [(COpen ''/bad'', None)]\<rparr> =
     (Inr 30, \<lparr>world = 0, trace = [(COpen ''/bad'', None), (CCreate ''/out/bad'', None)]\<rparr>)"
  by code_simp

lemma demo_Copy_bad:
  "io_Copy demo 30 23 \<lparr>world = 0, trace = [(COpen ''/bad'', None), (CCreate ''/out/bad'', None)]\<rparr> =
     (Inl (PathError ''read'' ''/bad'' EIO),
      \<lparr>world = 0, trace = [(COpen ''/bad'', None), (CCreate ''/out/bad'', None),
                          (CCopy 30 23, Some (PathError ''read'' ''/bad'' EIO))]\<rparr>)"
  by code_simp

theorem CopyFile_swallows_stream_error_witness:
  "io_Copy demo 30 23 \<lparr>world = 0, trace = [(COpen ''/bad'', None), (CCreate ''/out/bad'', None)]\<rparr> =
     (Inl (PathError ''read'' ''/bad'' EIO),
      \<lparr>world = 0, trace = [(COpen ''/bad'', None), (CCreate ''/out/bad'', None),
                          (CCopy 30 23, Some (PathError ''read'' ''/bad'' EIO))]\<rparr>) \<and>
   CopyFile demo ''/bad'' ''/out/bad'' 0 (demo_start 0) =
     (None,
      \<lparr>world = 0, trace = [(COpen ''/bad'', None), (CCreate ''/out/bad'', None),
                          (CCopy 30 23, Some (PathError ''read'' ''/bad'' EIO)),
                          (CClose 30, None), (CClose 23, None)]\<rparr>)"
proof -
  have closes:
    "file_Close demo 23 (file_Close demo 30
       \<lparr>world = 0, trace = [(COpen ''/bad'', None), (CCreate ''/out/bad'', None),
                           (CCopy 30 23, Some (PathError ''read'' ''/bad'' EIO))]\<rparr>) =
     \<lparr>world = 0, trace = [(COpen ''/bad'', None), (CCreate ''/out/bad'', None),
                         (CCopy 30 23, Some (PathError ''read'' ''/bad'' EIO)),
                         (CClose 30, None), (CClose 23, None)]\<rparr>"
    by code_simp
  from CopyFile_swallows_stream_error [OF demo_Open_bad demo_Create_bad demo_Copy_bad, of 0]
    demo_Copy_bad closes
  show ?thesis by simp
qed

section \<open>MD5.Do\<close>

lemma Do_error_is_stat_error:
  "fst (Do pf m5 p s) = errof (fst (os_Stat pf p (snd (time_Now pf s))))"
  by (simp add: Do_def Do_deferred_def split: prod.splits sum.splits option.splits)

text \<open>Claim C5, as amended. When the stat of the path succeeds and the read of its
  contents fails, \<^verbatim>\<open>Do\<close> returns \<^verbatim>\<open>nil\<close>; the size field is the size the stat reported;
  the digest and the buffer are what they were before the call (zero and \<^verbatim>\<open>nil\<close> for a
  fresh record, the previous file's for a record that is used again). On every path and
  record the error that \<^verbatim>\<open>Do\<close> returns is the error of the initial stat, \<^verbatim>\<open>nil\<close> when
  the stat succeeded.\<close>

theorem Do_swallows_read_failure:
  assumes "os_Stat pf p (snd (time_Now pf s)) = (Inr fi, s1)"
      and "ioutil_ReadFile pf p s1 = (Inl e, s2)"
      and "Do pf m5 p s = (r, m5', s')"
  shows "r = None \<and> Sz m5' = Size fi \<and> Sum m5' = Sum m5 \<and> B m5' = B m5 \<and>
         fst (Do pf m q t) = errof (fst (os_Stat pf q (snd (time_Now pf t))))"
proof -
  from assms have "r = None \<and> Sz m5' = Size fi \<and> Sum m5' = Sum m5 \<and> B m5' = B m5"
    by (auto simp: Do_def Do_deferred_def split: prod.splits)
  then show ?thesis by (simp add: Do_error_is_stat_error)
qed

lemma demo_Stat_unreadable:
  "os_Stat demo ''/unreadable'' (snd (time_Now demo (demo_start 0))) =
     (Inr (demo_file ''unreadable'' 7), \<lparr>world = 0, trace = [(CStat ''/unreadable'', None)]\<rparr>)"
  by code_simp

lemma demo_ReadFile_unreadable:
  "ioutil_ReadFile demo ''/unreadable'' \<lparr>world = 0, trace = [(CStat ''/unreadable'', None)]\<rparr> =
     (Inl (PathError ''open'' ''/unreadable'' EACCES),
      \<lparr>world = 0, trace = [(CStat ''/unreadable'', None),
         (CReadFile ''/unreadable'', Some (PathError ''open'' ''/unreadable'' EACCES))]\<rparr>)"
  by code_simp

lemma demo_Do_unreadable_fresh:
  "Do demo fresh_MD5 ''/unreadable'' (demo_start 0) =
     (None, \<lparr>Latency = 0, Sum = replicate 16 0, Sz = 7, B = None\<rparr>,
      \<lparr>world = 0, trace = [(CStat ''/unreadable'', None),
         (CReadFile ''/unreadable'', Some (PathError ''open'' ''/unreadable'' EACCES))]\<rparr>)"
  by code_simp

theorem Do_swallows_read_failure_witness:
  "ioutil_ReadFile demo ''/unreadable'' \<lparr>world = 0, trace = [(CStat ''/unreadable'', None)]\<rparr> =
     (Inl (PathError ''open'' ''/unreadable'' EACCES),
      \<lparr>world = 0, trace = [(CStat ''/unreadable'', None),
         (CReadFile ''/unreadable'', Some (PathError ''open'' ''/unreadable'' EACCES))]\<rparr>) \<and>
   Do demo fresh_MD5 ''/unreadable'' (demo_start 0) =
     (None, \<lparr>Latency = 0, Sum = replicate 16 0, Sz = 7, B = None\<rparr>,
      \<lparr>world = 0, trace = [(CStat ''/unreadable'', None),
         (CReadFile ''/unreadable'', Some (PathError ''open'' ''/unreadable'' EACCES))]\<rparr>) \<and>
   Sum \<lparr>Latency = 0, Sum = replicate 16 0, Sz = 7, B = None\<rparr> = Sum fresh_MD5 \<and>
   Sz \<lparr>Latency = 0, Sum = replicate 16 0, Sz = 7, B = None\<rparr> = Size (demo_file ''unreadable'' 7)"
  using Do_swallows_read_failure
          [OF demo_Stat_unreadable demo_ReadFile_unreadable demo_Do_unreadable_fresh]
        demo_ReadFile_unreadable demo_Do_unreadable_fresh
  by simp

text \<open>Claim C5 as stated says the digest is left zero or empty. With a record that an
  earlier \<^verbatim>\<open>Do\<close> has filled, the swallowed read failure leaves the earlier digest in
  place, next to the size of the new file.\<close>

theorem Do_keeps_stale_digest_counterexample:
  "Do demo used_MD5 ''/unreadable'' (demo_start 0) =
     (None,
      \<lparr>Latency = 0,
       Sum = [0xd4, 0x1d, 0x8c, 0xd9, 0x8f, 0x00, 0xb2, 0x04,
              0xe9, 0x80, 0x09, 0x98, 0xec, 0xf8, 0x42, 0x7e],
       Sz = 7, B = Some []\<rparr>,
      \<lparr>world = 0, trace = [(CStat ''/unreadable'', None),
         (CReadFile ''/unreadable'', Some (PathError ''open'' ''/unreadable'' EACCES))]\<rparr>) \<and>
   [0xd4, 0x1d, 0x8c, 0xd9, 0x8f, 0x00, 0xb2, 0x04,
    0xe9, 0x80, 0x09, 0x98, 0xec, 0xf8, 0x42, 0x7e] \<noteq> replicate 16 (0 :: byte) \<and>
   [0xd4, 0x1d, 0x8c, 0xd9, 0x8f, 0x00, 0xb2, 0x04,
    0xe9, 0x80, 0x09, 0x98, 0xec, 0xf8, 0x42, 0x7e] \<noteq> ([] :: byte list)"
  by code_simp

text \<open>Claim C6, as amended. When the stat and the read both succeed, \<^verbatim>\<open>Do\<close> returns
  \<^verbatim>\<open>nil\<close>, the buffer holds exactly the bytes read (a reused buffer is reset first) and
  the size field is the size the stat reported; so the length of the buffer equals the
  size field whenever the read returned as many bytes as the stat reported.\<close>

theorem Do_buffer_holds_bytes_read:
  assumes "os_Stat pf p (snd (time_Now pf s)) = (Inr fi, s1)"
      and "ioutil_ReadFile pf p s1 = (Inr data, s2)"
      and "length data = unat (Size fi)"
      and "Do pf m5 p s = (r, m5', s')"
  shows "r = None \<and> B m5' = Some data \<and> Sz m5' = Size fi \<and> length data = unat (Sz m5')"
  using assms
  by (auto simp: Do_def Do_deferred_def Buf_Reset_def Buf_Write_def split: prod.splits option.splits)

lemma demo_Stat_f_Do:
  "os_Stat demo ''/f'' (snd (time_Now demo (demo_start 0))) =
     (Inr (demo_file ''f'' 5), \<lparr>world = 0, trace = [(CStat ''/f'', None)]\<rparr>)"
  by code_simp

lemma demo_ReadFile_f:
  "ioutil_ReadFile demo ''/f'' \<lparr>world = 0, trace = [(CStat ''/f'', None)]\<rparr> =
     (Inr [1, 2, 3, 4, 5],
      \<lparr>world = 0, trace = [(CStat ''/f'', None), (CReadFile ''/f'', None)]\<rparr>)"
  by code_simp

lemma demo_Do_f:
  "Do demo fresh_MD5 ''/f'' (demo_start 0) =
     (None, \<lparr>Latency = 0, Sum = replicate 16 5, Sz = 5, B = Some [1, 2, 3, 4, 5]\<rparr>,
      \<lparr>world = 0, trace = [(CStat ''/f'', None), (CReadFile ''/f'', None)]\<rparr>)"
  by code_simp

theorem Do_buffer_holds_bytes_read_witness:
  "ioutil_ReadFile demo ''/f'' \<lparr>world = 0, trace = [(CStat ''/f'', None)]\<rparr> =
     (Inr [1, 2, 3, 4, 5],
      \<lparr>world = 0, trace = [(CStat ''/f'', None), (CReadFile ''/f'', None)]\<rparr>) \<and>
   length [1, 2, 3, 4, 5 :: byte] = unat (Size (demo_file ''f'' 5)) \<and>
   Do demo fresh_MD5 ''/f'' (demo_start 0) =
     (None, \<lparr>Latency = 0, Sum = replicate 16 5, Sz = 5, B = Some [1, 2, 3, 4, 5]\<rparr>,
      \<lparr>world = 0, trace = [(CStat ''/f'', None), (CReadFile ''/f'', None)]\<rparr>) \<and>
   length [1, 2, 3, 4, 5 :: byte] =
     unat (Sz \<lparr>Latency = 0, Sum = replicate 16 5, Sz = 5, B = Some [1, 2, 3, 4, 5]\<rparr>)"
proof -
  have len: "length [1, 2, 3, 4, 5 :: byte] = unat (Size (demo_file ''f'' 5))"
    by (simp add: demo_file_def)
  from Do_buffer_holds_bytes_read [OF demo_Stat_f_Do demo_ReadFile_f len demo_Do_f]
    demo_ReadFile_f len demo_Do_f
  show ?thesis by simp
qed

text \<open>Claim C6 as stated fails on two successful returns: after a swallowed read failure
  the size field is the new file's and the buffer is the old one; and when the file
  changes between the stat and the read, the size field and the bytes read differ.\<close>

theorem Do_buffer_length_differs_counterexample:
  "Do demo used_MD5 ''/unreadable'' (demo_start 0) =
     (None,
      \<lparr>Latency = 0,
       Sum = [0xd4, 0x1d, 0x8c, 0xd9, 0x8f, 0x00, 0xb2, 0x04,
              0xe9, 0x80, 0x09, 0x98, 0xec, 0xf8, 0x42, 0x7e],
       Sz = 7, B = Some []\<rparr>,
      \<lparr>world = 0, trace = [(CStat ''/unreadable'', None),
         (CReadFile ''/unreadable'', Some (PathError ''open'' ''/unreadable'' EACCES))]\<rparr>) \<and>
   length ([] :: byte list) \<noteq> unat (7 :: 64 word) \<and>
   Do demo fresh_MD5 ''/grown'' (demo_start 0) =
     (None, \<lparr>Latency = 0, Sum = replicate 16 4, Sz = 3, B = Some [1, 2, 3, 4]\<rparr>,
      \<lparr>world = 0, trace = [(CStat ''/grown'', None), (CReadFile ''/grown'', None)]\<rparr>) \<and>
   length [1, 2, 3, 4 :: byte] \<noteq> unat (3 :: 64 word)"
  by code_simp

section \<open>The tree copy: PathCopyDir\<close>













text \<open>Fuel only bounds the depth of the tree: a copy that returns with some fuel returns
  the same with more.\<close>

lemma PathCopyDir_more_fuel:
  "PathCopyDir n pf source dest s = Some x \<Longrightarrow> PathCopyDir (n + k) pf source dest s = Some x"
proof (induction n arbitrary: source dest s x)
  case 0
  then show ?case by simp
next
  case (Suc n)
  have loop: "PathCopyDir_loop n pf src dst objects err t = Some y \<Longrightarrow>
              PathCopyDir_loop (n + k) pf src dst objects err t = Some y"
    for src dst objects err t y
  proof (induction objects arbitrary: err t)
    case Nil
    then show ?case by simp
  next
    case (Cons obj objects)
    show ?case
    proof (cases "IsDir obj")
      case True
      with Cons.prems obtain err1 s1 where
        sub: "PathCopyDir n pf (src @ ''/'' @ Name obj) (dst @ ''/'' @ Name obj) t = Some (err1, s1)"
        and rest: "PathCopyDir_loop n pf src dst objects err1 (report err1 s1) = Some y"
        by (auto split: option.splits)
      from Suc.IH [OF sub] Cons.IH [OF rest] True show ?thesis by simp
    next
      case False
      with Cons.prems Cons.IH show ?thesis by (auto split: prod.splits)
    qed
  qed
  from Suc.prems show ?case
    by (auto split: prod.splits sum.splits option.splits intro: loop)
qed













end
